theory Spec2Isabelle
  imports Main "HOL-Library.Word"
begin

section \<open>The curses facade of cursesdef.h\<close>

text \<open>
  The header declares the console interface of the game in namespace catacurses: the
  type-erased window handle, the \<open>window\<close> wrapper class, the owning pointer
  \<open>WINDOW_PTR\<close>, the enumeration \<open>base_color\<close> and the drawing functions. Only the
  wrapper class, the two printf-style templates and the enumeration have bodies in the
  header; every other function is declared there and defined by a backend.
\<close>

subsection \<open>Pointers\<close>

text \<open>
  A C++ object pointer \<open>T *\<close> is an address tagged with the pointee type. The tag is a
  phantom type argument; address 0 is the null pointer. \<open>using WINDOW = void\<close> makes
  \<open>WINDOW *\<close> the untyped pointer.
\<close>

datatype 't ptr = Ptr (addr: nat)

type_synonym WINDOW = unit

definition nullptr :: "'t ptr" where
  "nullptr = Ptr 0"

text \<open>
  \<open>static_cast\<close> between an object pointer and \<open>void *\<close> keeps the address; the
  language guarantees that \<open>T * \<rightarrow> void * \<rightarrow> T *\<close> gives the original pointer back.
\<close>

definition static_cast :: "'a ptr \<Rightarrow> 'b ptr" where
  "static_cast p = Ptr (addr p)"

subsection \<open>class window\<close>

text \<open>
  \<^verbatim>\<open>
  class window {
      WINDOW *native_window;
    public:
      window() : native_window( nullptr ) { }
      template<typename T>
      window( T *const ptr ) : native_window( static_cast<WINDOW *>( ptr ) ) { }
      ~window() { }
      template<typename T = WINDOW>
      T * get() const { return static_cast<T *>( native_window ); }
      operator WINDOW *() const { return get(); }
  };
  \<close>
\<close>

record window =
  native_window :: "WINDOW ptr"

definition window_default_ctor :: window where
  "window_default_ctor = \<lparr>native_window = nullptr\<rparr>"

definition window_ctor :: "'t ptr \<Rightarrow> window" where
  "window_ctor p = \<lparr>native_window = static_cast p\<rparr>"

definition get :: "window \<Rightarrow> 't ptr" where
  "get w = static_cast (native_window w)"

definition operator_WINDOW_ptr :: "window \<Rightarrow> WINDOW ptr" where
  "operator_WINDOW_ptr w = get w"

text \<open>
  The class declares no comparison operator. An expression \<open>a == b\<close> on two windows
  converts both operands with \<open>operator WINDOW *\<close> and compares the pointers.
\<close>

definition window_eq :: "window \<Rightarrow> window \<Rightarrow> bool" where
  "window_eq a b = (operator_WINDOW_ptr a = operator_WINDOW_ptr b)"

text \<open>
  The class declares no copy constructor: the implicit one copies the member.
\<close>

definition window_copy_ctor :: "window \<Rightarrow> window" where
  "window_copy_ctor w = \<lparr>native_window = native_window w\<rparr>"

text \<open>
  The destructor has an empty body. It runs inside a program that has a backend in some
  state \<open>s\<close>; the body makes no call, so the state after it is the state before it.
\<close>

definition window_dtor :: "window \<Rightarrow> 'b \<Rightarrow> 'b" where
  "window_dtor w s = s"

text \<open>
  A block \<^verbatim>\<open>{ window w( p ); window c( w ); body }\<close>: the value and a copy of it are
  constructed, the body runs with both, and both are destroyed at the closing brace in
  reverse order of construction.
\<close>

definition window_scope :: "'t ptr \<Rightarrow> (window \<Rightarrow> window \<Rightarrow> 'b \<Rightarrow> 'b) \<Rightarrow> 'b \<Rightarrow> 'b" where
  "window_scope p body s =
     (let w = window_ctor p;
          c = window_copy_ctor w;
          s1 = body w c s;
          s2 = window_dtor c s1
      in window_dtor w s2)"

subsection \<open>The backend\<close>

text \<open>
  Modelled from the spec: \<open>werase\<close>, \<open>wrefresh\<close> and \<open>delwin\<close> are declared in the
  header and defined by the backend that is linked in, which is not part of the header.
  The spec observes them through a test backend double; the double here records every
  call, with its argument, at the end of a trace, so the trace lists the calls in the
  order they were made.
\<close>

datatype call = Call_werase window | Call_wrefresh window | Call_delwin window

type_synonym backend = "call list"

definition werase :: "window \<Rightarrow> backend \<Rightarrow> backend" where
  "werase win s = s @ [Call_werase win]"

definition wrefresh :: "window \<Rightarrow> backend \<Rightarrow> backend" where
  "wrefresh win s = s @ [Call_wrefresh win]"

definition delwin :: "window \<Rightarrow> backend \<Rightarrow> backend" where
  "delwin win s = s @ [Call_delwin win]"

subsection \<open>delwin_functor and WINDOW_PTR\<close>

text \<open>
  Modelled from the spec: \<open>delwin_functor::operator()\<close> is declared in the header and
  defined elsewhere. The spec gives its three steps and their order (erase the window's
  contents, flush to the display, destroy the window object); the header's comment on
  \<open>WINDOW_PTR\<close> names the same three calls: werase, wrefresh, delwin. Each call
  receives the \<open>WINDOW *\<close> through the converting constructor of \<open>window\<close>.
\<close>

definition delwin_functor :: "WINDOW ptr \<Rightarrow> backend \<Rightarrow> backend" where
  "delwin_functor w s =
     (let s1 = werase (window_ctor w) s;
          s2 = wrefresh (window_ctor w) s1
      in delwin (window_ctor w) s2)"

text \<open>
  Modelled from the spec: the header has the alias only,
  \<^verbatim>\<open>using WINDOW_PTR = std::unique_ptr<WINDOW, delwin_functor>;\<close>
  and the member functions of \<open>unique_ptr\<close> are the standard library's, not part of the
  header. The spec gives what destruction, \<open>reset\<close>, \<open>release\<close> and moving do; the
  C++ standard gives the same behaviour and, for \<open>reset\<close>, the order of its statements.

  The standard's \<open>unique_ptr\<close> stores one pointer and a deleter; \<open>delwin_functor\<close> has
  no members, so the pointer is the whole state. The member functions are written over
  any deleter \<open>d\<close> and any backend state, as the library template is:
  \<^item> the destructor calls the deleter on the stored pointer unless it is null;
  \<^item> \<open>release()\<close> returns the stored pointer and stores null, calling nothing;
  \<^item> \<open>reset(p)\<close> stores \<open>p\<close> and then calls the deleter on the pointer stored
    before, unless that was null;
  \<^item> the move constructor takes what \<open>release()\<close> of the source returns;
  \<^item> move assignment is \<open>reset(source.release())\<close>;
  \<^item> the copy constructor and copy assignment are deleted, so there is no copy
    operation to model.
\<close>

record unique_ptr =
  stored :: "WINDOW ptr"

type_synonym WINDOW_PTR = unique_ptr

definition unique_ptr_ctor :: "WINDOW ptr \<Rightarrow> unique_ptr" where
  "unique_ptr_ctor p = \<lparr>stored = p\<rparr>"

definition unique_ptr_get :: "unique_ptr \<Rightarrow> WINDOW ptr" where
  "unique_ptr_get u = stored u"

definition unique_ptr_dtor :: "(WINDOW ptr \<Rightarrow> 'b \<Rightarrow> 'b) \<Rightarrow> unique_ptr \<Rightarrow> 'b \<Rightarrow> 'b" where
  "unique_ptr_dtor d u s = (if stored u \<noteq> nullptr then d (stored u) s else s)"

definition release :: "unique_ptr \<Rightarrow> 'b \<Rightarrow> WINDOW ptr \<times> unique_ptr \<times> 'b" where
  "release u s = (stored u, u\<lparr>stored := nullptr\<rparr>, s)"

definition reset ::
  "(WINDOW ptr \<Rightarrow> 'b \<Rightarrow> 'b) \<Rightarrow> unique_ptr \<Rightarrow> WINDOW ptr \<Rightarrow> 'b \<Rightarrow> unique_ptr \<times> 'b" where
  "reset d u p s =
     (let old_p = stored u;
          u' = u\<lparr>stored := p\<rparr>
      in (u', if old_p \<noteq> nullptr then d old_p s else s))"

text \<open>
  The states \<open>reset(p)\<close> passes through, one after each statement of its body
  (\<^verbatim>\<open>old_p = stored; stored = p; if( old_p ) deleter( old_p );\<close>): on entry, after
  the store of \<open>p\<close>, and after the deleter call. The last one is the state in which
  \<open>reset\<close> returns.
\<close>

definition reset_steps ::
  "(WINDOW ptr \<Rightarrow> 'b \<Rightarrow> 'b) \<Rightarrow> unique_ptr \<Rightarrow> WINDOW ptr \<Rightarrow> 'b \<Rightarrow> (unique_ptr \<times> 'b) list" where
  "reset_steps d u p s =
     (let old_p = stored u;
          u' = u\<lparr>stored := p\<rparr>
      in [(u, s), (u', s), (u', if old_p \<noteq> nullptr then d old_p s else s)])"

text \<open>
  \<^verbatim>\<open>WINDOW_PTR dst( std::move( src ) );\<close> gives the new owner and the source as it
  is left behind.
\<close>

definition move_ctor :: "unique_ptr \<Rightarrow> 'b \<Rightarrow> unique_ptr \<times> unique_ptr \<times> 'b" where
  "move_ctor src s =
     (case release src s of (p, src', s') \<Rightarrow> (unique_ptr_ctor p, src', s'))"

text \<open>
  \<^verbatim>\<open>dst = std::move( src );\<close> gives the destination, the source as it is left
  behind, and the backend state.
\<close>

definition move_assign ::
  "(WINDOW ptr \<Rightarrow> 'b \<Rightarrow> 'b) \<Rightarrow> unique_ptr \<Rightarrow> unique_ptr \<Rightarrow> 'b \<Rightarrow> unique_ptr \<times> unique_ptr \<times> 'b" where
  "move_assign d dst src s =
     (case release src s of (p, src', s') \<Rightarrow>
        (case reset d dst p s' of (dst', s'') \<Rightarrow> (dst', src', s'')))"

text \<open>
  What a block does with an owner between its construction and the closing brace: any
  sequence of \<open>reset(p)\<close> and \<open>release()\<close> calls (\<open>reset()\<close> is \<open>reset(nullptr)\<close>;
  the pointer that \<open>release()\<close> returns goes to the caller).
\<close>

datatype owner_op = Reset "WINDOW ptr" | Release

fun apply_op :: "(WINDOW ptr \<Rightarrow> 'b \<Rightarrow> 'b) \<Rightarrow> owner_op \<Rightarrow> unique_ptr \<Rightarrow> 'b \<Rightarrow> unique_ptr \<times> 'b" where
  "apply_op d (Reset p) u s = reset d u p s"
| "apply_op d Release u s = (case release u s of (p, u', s') \<Rightarrow> (u', s'))"

fun apply_ops :: "(WINDOW ptr \<Rightarrow> 'b \<Rightarrow> 'b) \<Rightarrow> owner_op list \<Rightarrow> unique_ptr \<Rightarrow> 'b \<Rightarrow> unique_ptr \<times> 'b" where
  "apply_ops d [] u s = (u, s)"
| "apply_ops d (c # cs) u s = (case apply_op d c u s of (u', s') \<Rightarrow> apply_ops d cs u' s')"

text \<open>
  A block \<^verbatim>\<open>{ WINDOW_PTR u( p ); ops }\<close>: the owner is constructed over \<open>p\<close>, the
  operations run, and the owner is destroyed at the closing brace.
\<close>

definition owner_scope :: "(WINDOW ptr \<Rightarrow> 'b \<Rightarrow> 'b) \<Rightarrow> WINDOW ptr \<Rightarrow> owner_op list \<Rightarrow> 'b \<Rightarrow> 'b" where
  "owner_scope d p ops s =
     (case apply_ops d ops (unique_ptr_ctor p) s of (u, s') \<Rightarrow> unique_ptr_dtor d u s')"

text \<open>
  The spec's account of the same block, to compare with \<open>owner_scope\<close>. The owner holds
  one pointer after another; each holding ends in one way: a \<open>reset\<close> replaces it, a
  \<open>release\<close> detaches it, or the scope ends. The release routine is due once for every
  holding of a non-null handle that ends by \<open>reset\<close> or at scope exit, and not for one
  that ends by \<open>release\<close>.
\<close>

datatype ending = By_reset | By_release | By_scope_exit

fun holdings :: "WINDOW ptr \<Rightarrow> owner_op list \<Rightarrow> (WINDOW ptr \<times> ending) list" where
  "holdings p [] = [(p, By_scope_exit)]"
| "holdings p (Reset q # ops) = (p, By_reset) # holdings q ops"
| "holdings p (Release # ops) = (p, By_release) # holdings nullptr ops"

definition teardown :: "WINDOW ptr \<Rightarrow> call list" where
  "teardown h = [Call_werase (window_ctor h), Call_wrefresh (window_ctor h),
                 Call_delwin (window_ctor h)]"

fun routine_due :: "WINDOW ptr \<times> ending \<Rightarrow> bool" where
  "routine_due (h, e) = (h \<noteq> nullptr \<and> e \<noteq> By_release)"

definition expected_calls :: "(WINDOW ptr \<times> ending) list \<Rightarrow> call list" where
  "expected_calls hs = concat (map (\<lambda>he. teardown (fst he)) (filter routine_due hs))"

text \<open>
  The spec's invariant on owners speaks of authority: an owner is the authority for a
  handle when destroying the owner would destroy that handle's window.
\<close>

definition authoritative :: "unique_ptr \<Rightarrow> WINDOW ptr \<Rightarrow> bool" where
  "authoritative u h = (h \<noteq> nullptr \<and> stored u = h)"

text \<open>
  Several owners alive at once are a list of owner objects, an object being its
  position in the list. At most one of them is the authority for a handle when the
  non-null pointers they store are pairwise different.
\<close>

definition at_most_one_authority :: "unique_ptr list \<Rightarrow> bool" where
  "at_most_one_authority us = distinct (filter (\<lambda>p. p \<noteq> nullptr) (map stored us))"

text \<open>
  Move construction of a new owner from the owner at position \<open>i\<close>; the new owner is
  added at the end. Move assignment to the owner at position \<open>j\<close> from the one at
  position \<open>i\<close> is \<open>reset(source.release())\<close> carried out on the objects
  themselves: the source is changed first and the destination is read after that, so
  that assigning an owner to itself is covered. A position that names no owner gives
  \<open>None\<close>: a program cannot name an object that does not exist.
\<close>

definition store_move_ctor ::
  "unique_ptr list \<Rightarrow> nat \<Rightarrow> 'b \<Rightarrow> (unique_ptr list \<times> 'b) option" where
  "store_move_ctor us i s =
     (if i < length us
      then (case move_ctor (us ! i) s of (dst, src', s') \<Rightarrow> Some (us[i := src'] @ [dst], s'))
      else None)"

definition store_move_assign ::
  "(WINDOW ptr \<Rightarrow> 'b \<Rightarrow> 'b) \<Rightarrow> unique_ptr list \<Rightarrow> nat \<Rightarrow> nat \<Rightarrow> 'b \<Rightarrow>
   (unique_ptr list \<times> 'b) option" where
  "store_move_assign d us j i s =
     (if i < length us \<and> j < length us
      then (case release (us ! i) s of (p, src', s') \<Rightarrow>
              (let us1 = us[i := src']
               in (case reset d (us1 ! j) p s' of (dst', s'') \<Rightarrow> Some (us1[j := dst'], s''))))
      else None)"

subsection \<open>Formatted text\<close>

text \<open>
  \<^verbatim>\<open>
  void mvwprintw( const window &win, int y, int x, const std::string &text );
  template<typename ...Args>
  inline void mvwprintw( const window &win, const int y, const int x,
                         const char *const fmt, Args &&... args )
  {
      return mvwprintw( win, y, x, string_format( fmt, std::forward<Args>( args )... ) );
  }

  void wprintw( const window &win, const std::string &text );
  template<typename ...Args>
  inline void wprintw( const window &win, const char *const fmt, Args &&... args )
  {
      return wprintw( win, string_format( fmt, std::forward<Args>( args )... ) );
  }
  \<close>
  The two templates have their bodies in the header. What they call does not:
  \<open>string_format\<close> comes from string_formatter.h and the plain-string overloads from
  the backend. These are parameters of the model: \<open>string_format\<close> any function from
  a format string and an argument pack to a string, \<open>mvwprintw_text\<close> and
  \<open>wprintw_text\<close> any functions on any backend state. The argument pack is a value of
  any type \<open>'args\<close>; a C++ \<open>int\<close> is a 32-bit word.
\<close>

type_synonym cint = "32 word"

definition mvwprintw ::
  "(string \<Rightarrow> 'args \<Rightarrow> string) \<Rightarrow> (window \<Rightarrow> cint \<Rightarrow> cint \<Rightarrow> string \<Rightarrow> 'b \<Rightarrow> 'b) \<Rightarrow>
   window \<Rightarrow> cint \<Rightarrow> cint \<Rightarrow> string \<Rightarrow> 'args \<Rightarrow> 'b \<Rightarrow> 'b" where
  "mvwprintw string_format mvwprintw_text win y x fmt args s =
     mvwprintw_text win y x (string_format fmt args) s"

definition wprintw ::
  "(string \<Rightarrow> 'args \<Rightarrow> string) \<Rightarrow> (window \<Rightarrow> string \<Rightarrow> 'b \<Rightarrow> 'b) \<Rightarrow>
   window \<Rightarrow> string \<Rightarrow> 'args \<Rightarrow> 'b \<Rightarrow> 'b" where
  "wprintw string_format wprintw_text win fmt args s =
     wprintw_text win (string_format fmt args) s"

text \<open>
  The spec's account of a formatted-text overload, to compare with the two templates:
  first render format string and arguments into a plain string with the formatter, then
  forward that string to the plain-string form.
\<close>

definition render_then_forward ::
  "(string \<Rightarrow> 'args \<Rightarrow> string) \<Rightarrow> (string \<Rightarrow> 'b \<Rightarrow> 'b) \<Rightarrow> string \<Rightarrow> 'args \<Rightarrow> 'b \<Rightarrow> 'b" where
  "render_then_forward format plain_form fmt args s =
     (let text = format fmt args in plain_form text s)"

subsection \<open>enum base_color\<close>

text \<open>
  \<^verbatim>\<open>
  enum base_color : short {
      black = 0x00, red = 0x01, green = 0x02, yellow = 0x03,
      blue = 0x04, magenta = 0x05, cyan = 0x06, white = 0x07,
  };
  \<close>
  The enumerators are the constructors, in the order of the declaration; the underlying
  type \<open>short\<close> is a 16-bit word, and \<open>base_color_value\<close> gives the value written
  next to each enumerator.
\<close>

datatype base_color = black | red | green | yellow | blue | magenta | cyan | white

type_synonym short = "16 word"

fun base_color_value :: "base_color \<Rightarrow> short" where
  "base_color_value black = 0x00"
| "base_color_value red = 0x01"
| "base_color_value green = 0x02"
| "base_color_value yellow = 0x03"
| "base_color_value blue = 0x04"
| "base_color_value magenta = 0x05"
| "base_color_value cyan = 0x06"
| "base_color_value white = 0x07"

subsection \<open>init_interface\<close>

text \<open>
  Modelled from the spec: \<open>init_interface\<close> is declared in the header
  (\<^verbatim>\<open>void init_interface();\<close>) and defined by the backend, which is not part of the
  header. The spec says that it either establishes a working display or reports a setup
  failure by raising to the caller; the header's comment says the same
  (\<^verbatim>\<open>@throws std::exception upon any errors\<close>). What the backend's own set-up does
  is the parameter \<open>backend_setup\<close>: from the state before, an exception or the state
  with the interface ready. The function returns \<open>void\<close>, so the outcome is either the
  exception (\<open>Inl\<close>) or a normal return with nothing but the new state (\<open>Inr\<close>).
\<close>

datatype exception = Std_exception string

definition init_interface :: "('b \<Rightarrow> exception + 'b) \<Rightarrow> 'b \<Rightarrow> exception + 'b" where
  "init_interface backend_setup s =
     (case backend_setup s of Inl e \<Rightarrow> Inl e | Inr ready \<Rightarrow> Inr ready)"

text \<open>
  Modelled from the spec: the code that calls \<open>init_interface\<close> is not part of the
  header. The spec and the header's comment give its duty: display or log the error and
  abort the program, and continue only when \<open>init_interface\<close> returned normally. The
  program that uses the interface afterwards is the parameter \<open>program\<close>.
\<close>

datatype 'b run = Aborted "exception list" | Continued 'b

definition start_program :: "('b \<Rightarrow> exception + 'b) \<Rightarrow> ('b \<Rightarrow> 'b) \<Rightarrow> 'b \<Rightarrow> 'b run" where
  "start_program backend_setup program s =
     (case init_interface backend_setup s of
        Inl e \<Rightarrow> Aborted [e]
      | Inr ready \<Rightarrow> Continued (program ready))"

section \<open>Properties\<close>

subsection \<open>Window values\<close>

lemma static_cast_round_trip: "static_cast (static_cast p :: 'b ptr) = (p :: 'a ptr)"
  by (cases p) (simp add: static_cast_def)

lemma static_cast_id: "static_cast p = p"
  by (cases p) (simp add: static_cast_def)

text \<open>
  C4. The window value keeps the raw handle: for a pointer \<open>p\<close> of any pointee type,
  \<open>window(p).get<T>()\<close> is \<open>p\<close>, and the conversion to \<open>WINDOW *\<close> is \<open>p\<close> cast
  to \<open>WINDOW *\<close> (\<open>p\<close> itself when it is a \<open>WINDOW *\<close>). Two window values built
  from the same handle compare equal, two built from different handles do not, and a
  copy of a window value compares equal to the original.
\<close>

theorem window_preserves_handle:
  fixes p q :: "'t ptr" and h :: "WINDOW ptr"
  shows "get (window_ctor p) = p
    \<and> operator_WINDOW_ptr (window_ctor p) = static_cast p
    \<and> operator_WINDOW_ptr (window_ctor h) = h
    \<and> window_eq (window_ctor p) (window_ctor p)
    \<and> window_eq (window_ctor p) (window_ctor q) = (p = q)
    \<and> window_eq (window_copy_ctor w) w"
proof -
  have "get (window_ctor p) = p"
    by (simp add: get_def window_ctor_def static_cast_round_trip)
  moreover have "operator_WINDOW_ptr (window_ctor p) = static_cast p"
    by (simp add: operator_WINDOW_ptr_def get_def window_ctor_def static_cast_id)
  moreover have "operator_WINDOW_ptr (window_ctor h) = h"
    by (simp add: operator_WINDOW_ptr_def get_def window_ctor_def static_cast_id)
  moreover have "window_eq (window_ctor p) (window_ctor p)"
    by (simp add: window_eq_def)
  moreover have "window_eq (window_ctor p) (window_ctor q) = (p = q)"
    by (cases p, cases q)
       (simp add: window_eq_def operator_WINDOW_ptr_def get_def window_ctor_def
          static_cast_def)
  moreover have "window_eq (window_copy_ctor w) w"
    by (simp add: window_eq_def window_copy_ctor_def operator_WINDOW_ptr_def get_def)
  ultimately show ?thesis by simp
qed

text \<open>
  C5. A default-constructed window value is null: \<open>get\<close> at any pointee type and the
  conversion to \<open>WINDOW *\<close> give the null pointer.
\<close>

theorem window_default_is_null:
  "get window_default_ctor = (nullptr :: 't ptr)
   \<and> operator_WINDOW_ptr window_default_ctor = nullptr
   \<and> native_window window_default_ctor = nullptr"
  by (simp add: get_def operator_WINDOW_ptr_def window_default_ctor_def static_cast_def
      nullptr_def)

text \<open>
  C6. No operation on a window value touches the backend. Construction, copy, \<open>get\<close>
  and the conversion are functions of their arguments alone; the destructor, run in any
  backend state, leaves that state as it is. So a block that constructs a window value
  and a copy of it, runs a body and destroys both has the effect of the body alone on
  the backend, and no effect when the body makes no call: no window is destroyed.
\<close>

theorem window_value_leaves_backend:
  "window_dtor w s = s
   \<and> window_scope p body s = body (window_ctor p) (window_copy_ctor (window_ctor p)) s
   \<and> window_scope p (\<lambda>w c s. s) s = s"
  by (simp add: window_dtor_def window_scope_def Let_def)

subsection \<open>The scoped owner\<close>

lemma delwin_functor_calls: "delwin_functor h s = s @ teardown h"
  by (simp add: delwin_functor_def teardown_def werase_def wrefresh_def delwin_def)

lemma dtor_calls:
  "unique_ptr_dtor delwin_functor u s =
     s @ (if stored u = nullptr then [] else teardown (stored u))"
  by (simp add: unique_ptr_dtor_def delwin_functor_calls)

lemma reset_calls:
  "reset delwin_functor u q s =
     (\<lparr>stored = q\<rparr>, s @ (if stored u = nullptr then [] else teardown (stored u)))"
  by (simp add: reset_def delwin_functor_calls)

text \<open>
  C1. An owner that still holds a non-null handle when it is destroyed runs the
  teardown once: the destructor adds to the backend's trace exactly the three calls
  werase, wrefresh, delwin on that handle, in this order, and nothing else. The same
  holds for a whole block that constructs the owner over a non-null handle and leaves
  it alone until the closing brace.
\<close>

theorem owner_teardown_once_in_order:
  assumes "stored u \<noteq> nullptr"
  shows "unique_ptr_dtor delwin_functor u s =
           s @ [Call_werase (window_ctor (stored u)), Call_wrefresh (window_ctor (stored u)),
                Call_delwin (window_ctor (stored u))]
         \<and> owner_scope delwin_functor (stored u) [] s =
           s @ [Call_werase (window_ctor (stored u)), Call_wrefresh (window_ctor (stored u)),
                Call_delwin (window_ctor (stored u))]"
  using assms
  by (simp add: owner_scope_def unique_ptr_ctor_def dtor_calls teardown_def)

theorem owner_teardown_once_in_order_witness:
  "stored \<lparr>stored = Ptr 5\<rparr> \<noteq> nullptr
   \<and> unique_ptr_dtor delwin_functor \<lparr>stored = Ptr 5\<rparr> [] =
       [Call_werase \<lparr>native_window = Ptr 5\<rparr>, Call_wrefresh \<lparr>native_window = Ptr 5\<rparr>,
        Call_delwin \<lparr>native_window = Ptr 5\<rparr>]
   \<and> owner_scope delwin_functor (Ptr 5) [] [] =
       [Call_werase \<lparr>native_window = Ptr 5\<rparr>, Call_wrefresh \<lparr>native_window = Ptr 5\<rparr>,
        Call_delwin \<lparr>native_window = Ptr 5\<rparr>]"
proof -
  have h: "stored \<lparr>stored = Ptr 5\<rparr> \<noteq> nullptr"
    by (simp add: nullptr_def)
  show ?thesis
    using h owner_teardown_once_in_order [OF h, of "[]"]
    by (simp add: window_ctor_def static_cast_def)
qed

lemma apply_ops_append:
  "apply_ops d (xs @ ys) u s = (case apply_ops d xs u s of (u', s') \<Rightarrow> apply_ops d ys u' s')"
  by (induction xs arbitrary: u s) (auto split: prod.splits)

text \<open>
  C2. \<open>release()\<close> returns the pointer the owner holds and leaves the owner holding
  null; the backend state is the one before the call, for any deleter, so no teardown
  runs. The destructor of the owner left behind changes nothing either. A block that
  constructs an owner, calls \<open>release()\<close> and ends leaves the backend untouched, and
  a block whose last operation is \<open>release()\<close> ends with the backend as that
  operation found it.
\<close>

theorem release_detaches_without_teardown:
  "release u s = (stored u, \<lparr>stored = nullptr\<rparr>, s)
   \<and> unique_ptr_dtor d \<lparr>stored = nullptr\<rparr> s = s
   \<and> owner_scope d p [Release] s = s
   \<and> owner_scope d p (ops @ [Release]) s = snd (apply_ops d ops (unique_ptr_ctor p) s)"
  by (auto simp: release_def unique_ptr_dtor_def owner_scope_def apply_ops_append
      unique_ptr_ctor_def split: prod.splits)

lemma apply_ops_holdings:
  "apply_ops delwin_functor ops u s = (u', s') \<Longrightarrow>
   unique_ptr_dtor delwin_functor u' s' = s @ expected_calls (holdings (stored u) ops)"
proof (induction ops arbitrary: u s)
  case Nil
  then show ?case by (auto simp: dtor_calls expected_calls_def)
next
  case (Cons c cs)
  show ?case
  proof (cases c)
    case (Reset q)
    with Cons.prems have "apply_ops delwin_functor cs \<lparr>stored = q\<rparr>
        (s @ (if stored u = nullptr then [] else teardown (stored u))) = (u', s')"
      by (simp add: reset_calls)
    from Cons.IH [OF this] Reset show ?thesis
      by (simp add: expected_calls_def)
  next
    case Release
    with Cons.prems have "apply_ops delwin_functor cs (u\<lparr>stored := nullptr\<rparr>) s = (u', s')"
      by (simp add: release_def)
    from Cons.IH [OF this] Release show ?thesis
      by (simp add: expected_calls_def)
  qed
qed

lemma owner_scope_holdings:
  "owner_scope delwin_functor p ops s = s @ expected_calls (holdings p ops)"
proof -
  obtain u' s' where r: "apply_ops delwin_functor ops (unique_ptr_ctor p) s = (u', s')"
    by (cases "apply_ops delwin_functor ops (unique_ptr_ctor p) s") auto
  from apply_ops_holdings [OF r] r show ?thesis
    by (simp add: owner_scope_def unique_ptr_ctor_def)
qed

lemma window_ctor_inject: "(window_ctor (a :: WINDOW ptr) = window_ctor b) = (a = b)"
  by (cases a, cases b) (simp add: window_ctor_def static_cast_def)

lemma count_delwin_teardown:
  "count_list (teardown a) (Call_delwin (window_ctor h)) = (if a = h then 1 else 0)"
  by (simp add: teardown_def window_ctor_inject)

lemma count_delwin_expected:
  "count_list (expected_calls hs) (Call_delwin (window_ctor h)) =
     length (filter (\<lambda>he. fst he = h \<and> routine_due he) hs)"
  by (induction hs) (auto simp: expected_calls_def count_delwin_teardown)

lemma not_held_no_teardown:
  "count_list (map fst hs) h = 0 \<Longrightarrow>
   length (filter (\<lambda>he. fst he = h \<and> routine_due he) hs) = 0 \<and> (h, e) \<notin> set hs"
  by (induction hs) (auto split: if_splits)

lemma held_once_teardown:
  assumes "h \<noteq> nullptr" and "count_list (map fst hs) h = 1"
  shows "length (filter (\<lambda>he. fst he = h \<and> routine_due he) hs) =
           (if (h, By_release) \<in> set hs then 0 else 1)"
  using assms(2)
proof (induction hs)
  case Nil
  then show ?case by simp
next
  case (Cons x xs)
  obtain a e where x: "x = (a, e)" by (cases x)
  show ?case
  proof (cases "a = h")
    case True
    with Cons.prems x have z: "count_list (map fst xs) h = 0" by simp
    from not_held_no_teardown [OF z, of By_release]
    show ?thesis using True x assms(1) by auto
  next
    case False
    with Cons.prems x have "count_list (map fst xs) h = 1" by simp
    from Cons.IH [OF this] False x show ?thesis by auto
  qed
qed

lemma reset_steps_calls:
  "reset_steps delwin_functor u q s =
     [(u, s), (\<lparr>stored = q\<rparr>, s),
      (\<lparr>stored = q\<rparr>, s @ (if stored u = nullptr then [] else teardown (stored u)))]"
  by (simp add: reset_steps_def delwin_functor_calls Let_def)

text \<open>
  C3, as stated, fails in two places. An owner constructed over handle 1 on which
  \<open>reset\<close> is called with handle 1 again (\<open>u.reset(u.get())\<close>) runs the teardown on
  that handle at the \<open>reset\<close> and once more at scope exit: two delwin calls on one
  handle, not one, and at both moments. And \<open>reset\<close> takes ownership of the new
  pointer first: in the state after the store the owner holds the new handle 2 and no
  teardown call on the old handle 1 has been made yet.
\<close>

theorem release_routine_per_handle_counterexample:
  "owner_scope delwin_functor (Ptr 1) [Reset (Ptr 1)] [] =
     [Call_werase \<lparr>native_window = Ptr 1\<rparr>, Call_wrefresh \<lparr>native_window = Ptr 1\<rparr>,
      Call_delwin \<lparr>native_window = Ptr 1\<rparr>,
      Call_werase \<lparr>native_window = Ptr 1\<rparr>, Call_wrefresh \<lparr>native_window = Ptr 1\<rparr>,
      Call_delwin \<lparr>native_window = Ptr 1\<rparr>]
   \<and> count_list (owner_scope delwin_functor (Ptr 1) [Reset (Ptr 1)] [])
        (Call_delwin (window_ctor (Ptr 1 :: WINDOW ptr))) = 2
   \<and> count_list (owner_scope delwin_functor (Ptr 1) [Reset (Ptr 1)] [])
        (Call_delwin (window_ctor (Ptr 1 :: WINDOW ptr))) \<noteq> 1
   \<and> reset_steps delwin_functor \<lparr>stored = Ptr 1\<rparr> (Ptr 2) [] ! 1 = (\<lparr>stored = Ptr 2\<rparr>, [])
   \<and> reset_steps delwin_functor \<lparr>stored = Ptr 1\<rparr> (Ptr 2) [] ! 2 =
       (\<lparr>stored = Ptr 2\<rparr>,
        [Call_werase \<lparr>native_window = Ptr 1\<rparr>, Call_wrefresh \<lparr>native_window = Ptr 1\<rparr>,
         Call_delwin \<lparr>native_window = Ptr 1\<rparr>])"
proof -
  have t: "owner_scope delwin_functor (Ptr 1) [Reset (Ptr 1)] [] =
     [Call_werase \<lparr>native_window = Ptr 1\<rparr>, Call_wrefresh \<lparr>native_window = Ptr 1\<rparr>,
      Call_delwin \<lparr>native_window = Ptr 1\<rparr>,
      Call_werase \<lparr>native_window = Ptr 1\<rparr>, Call_wrefresh \<lparr>native_window = Ptr 1\<rparr>,
      Call_delwin \<lparr>native_window = Ptr 1\<rparr>]"
    by (simp add: owner_scope_def unique_ptr_ctor_def reset_def unique_ptr_dtor_def
        delwin_functor_def werase_def wrefresh_def delwin_def window_ctor_def static_cast_def
        nullptr_def Let_def)
  have w: "window_ctor (Ptr 1 :: WINDOW ptr) = \<lparr>native_window = Ptr 1\<rparr>"
    by (simp add: window_ctor_def static_cast_def)
  have r: "reset_steps delwin_functor \<lparr>stored = Ptr 1\<rparr> (Ptr 2) [] =
     [(\<lparr>stored = Ptr 1\<rparr>, []), (\<lparr>stored = Ptr 2\<rparr>, []),
      (\<lparr>stored = Ptr 2\<rparr>,
       [Call_werase \<lparr>native_window = Ptr 1\<rparr>, Call_wrefresh \<lparr>native_window = Ptr 1\<rparr>,
        Call_delwin \<lparr>native_window = Ptr 1\<rparr>])]"
    by (simp add: reset_steps_def delwin_functor_def werase_def wrefresh_def delwin_def
        window_ctor_def static_cast_def nullptr_def Let_def)
  show ?thesis
    unfolding t w r by simp
qed

text \<open>
  C3, amended. \<open>reset(q)\<close> stores \<open>q\<close> and then, when the pointer held before was not
  null, runs the three teardown calls on it: the owner already holds \<open>q\<close> while the
  teardown runs, and \<open>reset\<close> returns with the old window torn down and the owner
  holding \<open>q\<close>. For a block with any sequence of \<open>reset\<close> and \<open>release\<close> calls, the
  trace at the closing brace is the trace at the start followed by one teardown for
  every holding of a non-null handle that ended by \<open>reset\<close> or at scope exit, in the
  order the holdings ended, and by nothing for a holding that ended by \<open>release\<close>. A
  holding has one ending, so its teardown runs at the \<open>reset\<close> or at scope exit and
  not at both; the number of delwin calls on a handle is the number of such holdings of
  it. For a non-null handle that the owner held once, that number is one, unless the
  holding ended by \<open>release\<close>, when it is zero.
\<close>

theorem release_routine_once_per_holding:
  "reset_steps delwin_functor u q s =
     [(u, s), (\<lparr>stored = q\<rparr>, s),
      (\<lparr>stored = q\<rparr>, s @ (if stored u = nullptr then [] else teardown (stored u)))]
   \<and> reset delwin_functor u q s = last (reset_steps delwin_functor u q s)
   \<and> reset delwin_functor u q s =
     (\<lparr>stored = q\<rparr>, s @ (if stored u = nullptr then [] else teardown (stored u)))
   \<and> owner_scope delwin_functor p ops s = s @ expected_calls (holdings p ops)
   \<and> count_list (owner_scope delwin_functor p ops []) (Call_delwin (window_ctor h)) =
       length (filter (\<lambda>he. fst he = h \<and> routine_due he) (holdings p ops))
   \<and> (h \<noteq> nullptr \<and> count_list (map fst (holdings p ops)) h = 1 \<longrightarrow>
       count_list (owner_scope delwin_functor p ops []) (Call_delwin (window_ctor h)) =
         (if (h, By_release) \<in> set (holdings p ops) then 0 else 1))"
proof (intro conjI)
  show "reset_steps delwin_functor u q s =
     [(u, s), (\<lparr>stored = q\<rparr>, s),
      (\<lparr>stored = q\<rparr>, s @ (if stored u = nullptr then [] else teardown (stored u)))]"
    by (rule reset_steps_calls)
  show "reset delwin_functor u q s = last (reset_steps delwin_functor u q s)"
    by (simp add: reset_steps_calls reset_calls)
  show "reset delwin_functor u q s =
     (\<lparr>stored = q\<rparr>, s @ (if stored u = nullptr then [] else teardown (stored u)))"
    by (rule reset_calls)
  show "owner_scope delwin_functor p ops s = s @ expected_calls (holdings p ops)"
    by (rule owner_scope_holdings)
  show n: "count_list (owner_scope delwin_functor p ops []) (Call_delwin (window_ctor h)) =
       length (filter (\<lambda>he. fst he = h \<and> routine_due he) (holdings p ops))"
    by (simp add: owner_scope_holdings count_delwin_expected)
  show "h \<noteq> nullptr \<and> count_list (map fst (holdings p ops)) h = 1 \<longrightarrow>
       count_list (owner_scope delwin_functor p ops []) (Call_delwin (window_ctor h)) =
         (if (h, By_release) \<in> set (holdings p ops) then 0 else 1)"
  proof
    assume "h \<noteq> nullptr \<and> count_list (map fst (holdings p ops)) h = 1"
    then have "length (filter (\<lambda>he. fst he = h \<and> routine_due he) (holdings p ops)) =
           (if (h, By_release) \<in> set (holdings p ops) then 0 else 1)"
      by (simp add: held_once_teardown)
    with n show "count_list (owner_scope delwin_functor p ops []) (Call_delwin (window_ctor h)) =
         (if (h, By_release) \<in> set (holdings p ops) then 0 else 1)"
      by simp
  qed
qed

theorem release_routine_once_per_holding_witness:
  "reset_steps delwin_functor \<lparr>stored = Ptr 1\<rparr> (Ptr 2) [] =
     [(\<lparr>stored = Ptr 1\<rparr>, []), (\<lparr>stored = Ptr 2\<rparr>, []),
      (\<lparr>stored = Ptr 2\<rparr>,
       [Call_werase \<lparr>native_window = Ptr 1\<rparr>, Call_wrefresh \<lparr>native_window = Ptr 1\<rparr>,
        Call_delwin \<lparr>native_window = Ptr 1\<rparr>])]
   \<and> reset delwin_functor \<lparr>stored = Ptr 1\<rparr> (Ptr 2) [] =
     (\<lparr>stored = Ptr 2\<rparr>,
      [Call_werase \<lparr>native_window = Ptr 1\<rparr>, Call_wrefresh \<lparr>native_window = Ptr 1\<rparr>,
       Call_delwin \<lparr>native_window = Ptr 1\<rparr>])
   \<and> owner_scope delwin_functor (Ptr 1) [Reset (Ptr 2), Release, Reset (Ptr 3)] [] =
       [Call_werase \<lparr>native_window = Ptr 1\<rparr>, Call_wrefresh \<lparr>native_window = Ptr 1\<rparr>,
        Call_delwin \<lparr>native_window = Ptr 1\<rparr>,
        Call_werase \<lparr>native_window = Ptr 3\<rparr>, Call_wrefresh \<lparr>native_window = Ptr 3\<rparr>,
        Call_delwin \<lparr>native_window = Ptr 3\<rparr>]
   \<and> (Ptr 3 :: WINDOW ptr) \<noteq> nullptr
   \<and> count_list (map fst (holdings (Ptr 1) [Reset (Ptr 2), Release, Reset (Ptr 3)])) (Ptr 3) = 1
   \<and> count_list (owner_scope delwin_functor (Ptr 1) [Reset (Ptr 2), Release, Reset (Ptr 3)] [])
        (Call_delwin (window_ctor (Ptr 3 :: WINDOW ptr))) = 1
   \<and> (Ptr 2 :: WINDOW ptr) \<noteq> nullptr
   \<and> count_list (map fst (holdings (Ptr 1) [Reset (Ptr 2), Release, Reset (Ptr 3)])) (Ptr 2) = 1
   \<and> count_list (owner_scope delwin_functor (Ptr 1) [Reset (Ptr 2), Release, Reset (Ptr 3)] [])
        (Call_delwin (window_ctor (Ptr 2 :: WINDOW ptr))) = 0"
proof -
  have n3: "(Ptr 3 :: WINDOW ptr) \<noteq> nullptr" and n2: "(Ptr 2 :: WINDOW ptr) \<noteq> nullptr"
    by (simp_all add: nullptr_def)
  have c3: "count_list (map fst (holdings (Ptr 1) [Reset (Ptr 2), Release, Reset (Ptr 3)]))
              (Ptr 3) = 1"
    and c2: "count_list (map fst (holdings (Ptr 1) [Reset (Ptr 2), Release, Reset (Ptr 3)]))
              (Ptr 2) = 1"
    by (simp_all add: nullptr_def)
  show ?thesis
    using n3 n2 c3 c2
      release_routine_once_per_holding
        [of "\<lparr>stored = Ptr 1\<rparr>" "Ptr 2" "[]" "Ptr 1" "[Reset (Ptr 2), Release, Reset (Ptr 3)]"
            "Ptr 3"]
      release_routine_once_per_holding
        [of "\<lparr>stored = Ptr 1\<rparr>" "Ptr 2" "[]" "Ptr 1" "[Reset (Ptr 2), Release, Reset (Ptr 3)]"
            "Ptr 2"]
    by (simp add: expected_calls_def teardown_def nullptr_def window_ctor_def static_cast_def)
qed

lemma distinct_filter_update_null:
  "distinct (filter (\<lambda>p. p \<noteq> n) xs) \<Longrightarrow> distinct (filter (\<lambda>p. p \<noteq> n) (xs[i := n]))"
proof (induction xs arbitrary: i)
  case Nil then show ?case by simp
next
  case (Cons x xs)
  show ?case
  proof (cases i)
    case 0 with Cons.prems show ?thesis by (auto split: if_splits)
  next
    case (Suc k)
    have "set (xs[k := n]) \<subseteq> insert n (set xs)" by (rule set_update_subset_insert)
    with Cons Suc show ?thesis by (auto split: if_splits)
  qed
qed

lemma moved_out:
  assumes "i < length xs" and "distinct (filter (\<lambda>p. p \<noteq> n) xs)" and "xs ! i \<noteq> n"
  shows "xs ! i \<notin> set (xs[i := n])"
  using assms
proof (induction xs arbitrary: i)
  case Nil then show ?case by simp
next
  case (Cons x xs)
  show ?case
  proof (cases i)
    case 0 with Cons.prems show ?thesis by (auto split: if_splits)
  next
    case (Suc k)
    with Cons.prems have k: "k < length xs" and nk: "xs ! k \<noteq> n"
      and dk: "distinct (filter (\<lambda>p. p \<noteq> n) xs)"
      by (auto split: if_splits)
    from Cons.IH [OF k dk nk] have "xs ! k \<notin> set (xs[k := n])" .
    moreover have "xs ! k \<noteq> x"
    proof
      assume e: "xs ! k = x"
      with nk have "x \<noteq> n" by simp
      with Cons.prems(2) have "x \<notin> set xs" by simp
      with e k show False by (metis nth_mem)
    qed
    ultimately show ?thesis using Suc by simp
  qed
qed

lemma distinct_filter_update_fresh:
  "distinct (filter (\<lambda>p. p \<noteq> n) ys) \<Longrightarrow> v \<notin> set ys \<Longrightarrow>
   distinct (filter (\<lambda>p. p \<noteq> n) (ys[j := v]))"
proof (induction ys arbitrary: j)
  case Nil then show ?case by simp
next
  case (Cons y ys)
  show ?case
  proof (cases j)
    case 0 with Cons.prems show ?thesis by (auto split: if_splits)
  next
    case (Suc k)
    have "set (ys[k := v]) \<subseteq> insert v (set ys)" by (rule set_update_subset_insert)
    with Cons Suc show ?thesis by (auto split: if_splits)
  qed
qed

lemma distinct_move_ctor:
  assumes "i < length xs" and "distinct (filter (\<lambda>p. p \<noteq> n) xs)"
  shows "distinct (filter (\<lambda>p. p \<noteq> n) (xs[i := n] @ [xs ! i]))"
proof (cases "xs ! i = n")
  case True
  with assms(2) show ?thesis by (simp add: distinct_filter_update_null)
next
  case False
  from moved_out [OF assms False] assms(2) False show ?thesis
    by (simp add: distinct_filter_update_null)
qed

lemma distinct_move_assign:
  assumes "i < length xs" and "j < length xs"
    and "distinct (filter (\<lambda>p. p \<noteq> n) xs)"
  shows "distinct (filter (\<lambda>p. p \<noteq> n) (xs[i := n, j := xs ! i]))"
proof (cases "i = j")
  case True
  with assms(3) show ?thesis by simp
next
  case neq: False
  have d: "distinct (filter (\<lambda>p. p \<noteq> n) (xs[i := n]))"
    using assms(3) by (rule distinct_filter_update_null)
  show ?thesis
  proof (cases "xs ! i = n")
    case True
    with d show ?thesis by (simp add: distinct_filter_update_null)
  next
    case False
    from moved_out [OF assms(1) assms(3) False] d show ?thesis
      by (simp add: distinct_filter_update_fresh)
  qed
qed

lemma move_ctor_result: "move_ctor src s = (\<lparr>stored = stored src\<rparr>, \<lparr>stored = nullptr\<rparr>, s)"
  by (simp add: move_ctor_def release_def unique_ptr_ctor_def)

lemma move_assign_result:
  "move_assign d dst src s = (\<lparr>stored = stored src\<rparr>, \<lparr>stored = nullptr\<rparr>, unique_ptr_dtor d dst s)"
  by (simp add: move_assign_def release_def reset_def unique_ptr_dtor_def)

lemma store_move_ctor_keeps:
  assumes "i < length us" and "at_most_one_authority us"
  shows "\<exists>us'. store_move_ctor us i s = Some (us', s) \<and> at_most_one_authority us'"
proof -
  have "map stored (us[i := \<lparr>stored = nullptr\<rparr>] @ [\<lparr>stored = stored (us ! i)\<rparr>])
        = (map stored us)[i := nullptr] @ [map stored us ! i]"
    using assms(1) by (simp add: map_update)
  with distinct_move_ctor [of i "map stored us" nullptr] assms show ?thesis
    by (simp add: store_move_ctor_def move_ctor_result at_most_one_authority_def)
qed

lemma stored_update: "(u :: unique_ptr)\<lparr>stored := p\<rparr> = \<lparr>stored = p\<rparr>"
  by (cases u) simp

lemma store_move_assign_result:
  "store_move_assign d us j i s =
     (if i < length us \<and> j < length us
      then Some (us[i := \<lparr>stored = nullptr\<rparr>, j := \<lparr>stored = stored (us ! i)\<rparr>],
                 unique_ptr_dtor d (us[i := \<lparr>stored = nullptr\<rparr>] ! j) s)
      else None)"
  by (simp add: store_move_assign_def release_def reset_def unique_ptr_dtor_def Let_def
      stored_update)

lemma store_move_assign_keeps:
  assumes "i < length us" and "j < length us" and "at_most_one_authority us"
  shows "\<exists>us' s'. store_move_assign d us j i s = Some (us', s') \<and> at_most_one_authority us'"
proof -
  have "map stored (us[i := \<lparr>stored = nullptr\<rparr>, j := \<lparr>stored = stored (us ! i)\<rparr>])
        = (map stored us)[i := nullptr, j := map stored us ! i]"
    using assms(1) by (simp add: map_update)
  with distinct_move_assign [of i "map stored us" j nullptr] assms show ?thesis
    by (simp add: store_move_assign_result at_most_one_authority_def)
qed

text \<open>
  C7. The owner has no copy operation. Move construction gives the destination the
  pointer of the source, leaves the source holding null and calls nothing; move
  assignment does the same after the destination's old window went through the
  deleter. The destination is the authority for exactly the handle the source was the
  authority for, and the source for none. Among several owners of which no two hold
  the same non-null handle, a move construction from one of them or a move assignment
  between any two of them keeps it so.
\<close>

theorem move_transfers_authority:
  "(case move_ctor src s of (dst, src', s') \<Rightarrow>
      stored dst = stored src \<and> stored src' = nullptr \<and> s' = s
      \<and> authoritative dst h = authoritative src h \<and> \<not> authoritative src' h)
   \<and> (case move_assign d dst src s of (dst', src', s') \<Rightarrow>
      stored dst' = stored src \<and> stored src' = nullptr \<and> s' = unique_ptr_dtor d dst s
      \<and> authoritative dst' h = authoritative src h \<and> \<not> authoritative src' h)
   \<and> (i < length us \<and> at_most_one_authority us \<longrightarrow>
        (\<exists>us'. store_move_ctor us i s = Some (us', s) \<and> at_most_one_authority us'))
   \<and> (i < length us \<and> j < length us \<and> at_most_one_authority us \<longrightarrow>
        (\<exists>us' s'. store_move_assign d us j i s = Some (us', s') \<and> at_most_one_authority us'))"
proof (intro conjI)
  show "case move_ctor src s of (dst, src', s') \<Rightarrow>
      stored dst = stored src \<and> stored src' = nullptr \<and> s' = s
      \<and> authoritative dst h = authoritative src h \<and> \<not> authoritative src' h"
    by (auto simp: move_ctor_result authoritative_def)
  show "case move_assign d dst src s of (dst', src', s') \<Rightarrow>
      stored dst' = stored src \<and> stored src' = nullptr \<and> s' = unique_ptr_dtor d dst s
      \<and> authoritative dst' h = authoritative src h \<and> \<not> authoritative src' h"
    by (auto simp: move_assign_result authoritative_def)
  show "i < length us \<and> at_most_one_authority us \<longrightarrow>
        (\<exists>us'. store_move_ctor us i s = Some (us', s) \<and> at_most_one_authority us')"
    using store_move_ctor_keeps [of i us s] by blast
  show "i < length us \<and> j < length us \<and> at_most_one_authority us \<longrightarrow>
        (\<exists>us' s'. store_move_assign d us j i s = Some (us', s') \<and> at_most_one_authority us')"
    using store_move_assign_keeps [of i us j d s] by blast
qed

theorem move_transfers_authority_witness:
  "(0::nat) < length [\<lparr>stored = Ptr 1\<rparr>, \<lparr>stored = Ptr 2\<rparr>]
   \<and> (1::nat) < length [\<lparr>stored = Ptr 1\<rparr>, \<lparr>stored = Ptr 2\<rparr>]
   \<and> at_most_one_authority [\<lparr>stored = Ptr 1\<rparr>, \<lparr>stored = Ptr 2\<rparr>]
   \<and> move_ctor \<lparr>stored = Ptr 1\<rparr> ([] :: call list) = (\<lparr>stored = Ptr 1\<rparr>, \<lparr>stored = nullptr\<rparr>, [])
   \<and> store_move_ctor [\<lparr>stored = Ptr 1\<rparr>, \<lparr>stored = Ptr 2\<rparr>] 0 ([] :: call list) =
       Some ([\<lparr>stored = nullptr\<rparr>, \<lparr>stored = Ptr 2\<rparr>, \<lparr>stored = Ptr 1\<rparr>], [])
   \<and> at_most_one_authority [\<lparr>stored = nullptr\<rparr>, \<lparr>stored = Ptr 2\<rparr>, \<lparr>stored = Ptr 1\<rparr>]
   \<and> store_move_assign delwin_functor [\<lparr>stored = Ptr 1\<rparr>, \<lparr>stored = Ptr 2\<rparr>] 1 0 [] =
       Some ([\<lparr>stored = nullptr\<rparr>, \<lparr>stored = Ptr 1\<rparr>],
             [Call_werase \<lparr>native_window = Ptr 2\<rparr>, Call_wrefresh \<lparr>native_window = Ptr 2\<rparr>,
              Call_delwin \<lparr>native_window = Ptr 2\<rparr>])
   \<and> at_most_one_authority [\<lparr>stored = nullptr\<rparr>, \<lparr>stored = Ptr 1\<rparr>]
   \<and> store_move_assign delwin_functor [\<lparr>stored = Ptr 1\<rparr>, \<lparr>stored = Ptr 2\<rparr>] 0 0 [] =
       Some ([\<lparr>stored = Ptr 1\<rparr>, \<lparr>stored = Ptr 2\<rparr>], [])"
proof -
  have self: "store_move_assign delwin_functor [\<lparr>stored = Ptr 1\<rparr>, \<lparr>stored = Ptr 2\<rparr>] 0 0 [] =
       Some ([\<lparr>stored = Ptr 1\<rparr>, \<lparr>stored = Ptr 2\<rparr>], [])"
    by (simp add: store_move_assign_def release_def reset_def Let_def)
  have a: "at_most_one_authority [\<lparr>stored = Ptr 1\<rparr>, \<lparr>stored = Ptr 2\<rparr>]"
    by (simp add: at_most_one_authority_def nullptr_def)
  have c: "store_move_ctor [\<lparr>stored = Ptr 1\<rparr>, \<lparr>stored = Ptr 2\<rparr>] 0 ([] :: call list) =
       Some ([\<lparr>stored = nullptr\<rparr>, \<lparr>stored = Ptr 2\<rparr>, \<lparr>stored = Ptr 1\<rparr>], [])"
    by (simp add: store_move_ctor_def move_ctor_def release_def unique_ptr_ctor_def)
  have m: "store_move_assign delwin_functor [\<lparr>stored = Ptr 1\<rparr>, \<lparr>stored = Ptr 2\<rparr>] 1 0 [] =
       Some ([\<lparr>stored = nullptr\<rparr>, \<lparr>stored = Ptr 1\<rparr>],
             [Call_werase \<lparr>native_window = Ptr 2\<rparr>, Call_wrefresh \<lparr>native_window = Ptr 2\<rparr>,
              Call_delwin \<lparr>native_window = Ptr 2\<rparr>])"
    by (simp add: store_move_assign_def release_def reset_def nullptr_def delwin_functor_def
        werase_def wrefresh_def delwin_def window_ctor_def static_cast_def Let_def)
  show ?thesis
    using a c m self move_transfers_authority
            [of "\<lparr>stored = Ptr 1\<rparr>" "[] :: call list" "Ptr 1" delwin_functor "\<lparr>stored = Ptr 2\<rparr>"
                0 "[\<lparr>stored = Ptr 1\<rparr>, \<lparr>stored = Ptr 2\<rparr>]" 1]
    by (simp add: move_ctor_def release_def unique_ptr_ctor_def)
qed

subsection \<open>Formatted text, colours, initialisation\<close>

text \<open>
  C8. For every formatter, every plain-string form, every window, position, format
  string and argument pack, the template \<open>mvwprintw\<close> does what the plain-string
  \<open>mvwprintw\<close> does on the formatter's result, and likewise \<open>wprintw\<close>: each
  template is the spec's "render, then forward".
\<close>

theorem formatted_overloads_forward:
  "mvwprintw string_format mvwprintw_text win y x fmt args s =
     mvwprintw_text win y x (string_format fmt args) s
   \<and> wprintw string_format wprintw_text win fmt args s =
     wprintw_text win (string_format fmt args) s
   \<and> mvwprintw string_format mvwprintw_text win y x =
     render_then_forward string_format (mvwprintw_text win y x)
   \<and> wprintw string_format wprintw_text win =
     render_then_forward string_format (wprintw_text win)"
  by (simp add: mvwprintw_def wprintw_def render_then_forward_def fun_eq_iff)

text \<open>
  C9. \<open>base_color\<close> has exactly the eight enumerators black, red, green, yellow, blue,
  magenta, cyan, white, pairwise different, and their underlying values are, in this
  order, 0 to 7.
\<close>

theorem base_color_enumeration:
  "(UNIV :: base_color set) = set [black, red, green, yellow, blue, magenta, cyan, white]
   \<and> distinct [black, red, green, yellow, blue, magenta, cyan, white]
   \<and> card (UNIV :: base_color set) = 8
   \<and> map base_color_value [black, red, green, yellow, blue, magenta, cyan, white]
       = [0, 1, 2, 3, 4, 5, 6, 7]
   \<and> map (sint \<circ> base_color_value) [black, red, green, yellow, blue, magenta, cyan, white]
       = [0, 1, 2, 3, 4, 5, 6, 7]"
proof -
  have u: "(UNIV :: base_color set) = set [black, red, green, yellow, blue, magenta, cyan, white]"
  proof -
    have "c \<in> set [black, red, green, yellow, blue, magenta, cyan, white]" for c
      by (cases c) simp_all
    then show ?thesis by blast
  qed
  have d: "distinct [black, red, green, yellow, blue, magenta, cyan, white]"
    by simp
  have "card (set [black, red, green, yellow, blue, magenta, cyan, white]) = 8"
    using d by (simp only: distinct_card) simp
  with u d show ?thesis by simp
qed

text \<open>
  C10. When the backend's set-up fails, \<open>init_interface\<close> raises that error and
  returns nothing, and the caller logs it and aborts without running the program. When
  the set-up succeeds, \<open>init_interface\<close> returns normally and the program runs on
  the ready interface. The program runs exactly when \<open>init_interface\<close> returned
  normally.
\<close>

theorem init_interface_raises_or_returns:
  "(backend_setup s = Inl e \<longrightarrow>
      init_interface backend_setup s = Inl e
      \<and> start_program backend_setup program s = Aborted [e])
   \<and> (backend_setup s = Inr ready \<longrightarrow>
      init_interface backend_setup s = Inr ready
      \<and> start_program backend_setup program s = Continued (program ready))
   \<and> ((\<exists>r. start_program backend_setup program s = Continued r)
        = (\<exists>ready. init_interface backend_setup s = Inr ready))"
  by (auto simp: init_interface_def start_program_def split: sum.splits)

theorem init_interface_raises_or_returns_witness:
  "(\<lambda>s :: call list. Inl (Std_exception ''no display'')) [] = Inl (Std_exception ''no display'')
   \<and> init_interface (\<lambda>s :: call list. Inl (Std_exception ''no display'')) [] =
       Inl (Std_exception ''no display'')
   \<and> start_program (\<lambda>s :: call list. Inl (Std_exception ''no display'')) (werase window_default_ctor) [] =
       Aborted [Std_exception ''no display'']
   \<and> (\<lambda>s :: call list. Inr s :: exception + call list) [] = Inr []
   \<and> start_program (\<lambda>s. Inr s) (werase window_default_ctor) [] =
       Continued [Call_werase \<lparr>native_window = Ptr 0\<rparr>]"
  using init_interface_raises_or_returns
          [of "\<lambda>s :: call list. Inl (Std_exception ''no display'')" "[]"
              "Std_exception ''no display''" "werase window_default_ctor" "[]"]
        init_interface_raises_or_returns
          [of "\<lambda>s :: call list. Inr s" "[]" "Std_exception ''no display''"
              "werase window_default_ctor" "[]"]
  by (simp add: werase_def window_default_ctor_def nullptr_def)

end
